theory Spec2Isabelle
  imports Main "HOL-Library.Word" "HOL-Library.Finite_Map"
begin

section \<open>The cache of package \<open>cache\<close>, embedded\<close>

text \<open>
  The Go package keeps a \<open>map[string]Item\<close> behind a \<open>sync.RWMutex\<close>. The embedding
  follows one goroutine through one call:
  \<^item> \<open>int64\<close> and \<open>time.Duration\<close> are 64-bit words, compared as signed numbers
    (\<open>sint\<close>), added with wrap-around;
  \<^item> the Go map is a finite map; \<open>len\<close> is the number of its keys;
  \<^item> \<open>time.Now().UnixNano()\<close> is a parameter \<open>now\<close> of the call that reads the clock;
  \<^item> a \<open>for k, v := range m\<close> loop takes the order in which the keys are visited as a
    parameter \<open>ks\<close>, since Go leaves it open; a key that is no longer in the map when
    its turn comes is not produced;
  \<^item> the mutex is a field of the state. It records what the calling goroutine itself
    holds, so a request that cannot be granted in that state is never granted: the
    only goroutine that could release the lock is the one waiting for it. That
    outcome is \<open>Inl Deadlock\<close>.
\<close>

subsection \<open>Item and the expiry test\<close>

type_synonym int64 = "64 word"

record 'v Item =
  Object :: 'v
  Expiration :: int64

text \<open>\<open>Item.Expired\<close>, lines 18-23; \<open>now\<close> is the reading of \<open>time.Now().UnixNano()\<close>.\<close>

definition Expired :: "'v Item \<Rightarrow> int64 \<Rightarrow> bool" where
  "Expired item now =
     (if Expiration item = 0 then False
      else sint now > sint (Expiration item))"

definition NoExpiration :: int64 where
  "NoExpiration = - 1"

definition DefaultExpiration :: int64 where
  "DefaultExpiration = 0"

subsection \<open>The read/write mutex, as one goroutine sees it\<close>

datatype stuck = Deadlock | FatalUnlock

record RWMutex =
  writer :: bool
  readers :: nat

definition Lock :: "RWMutex \<Rightarrow> stuck + RWMutex" where
  "Lock m = (if writer m \<or> 0 < readers m then Inl Deadlock else Inr (m\<lparr>writer := True\<rparr>))"

definition Unlock :: "RWMutex \<Rightarrow> stuck + RWMutex" where
  "Unlock m = (if writer m then Inr (m\<lparr>writer := False\<rparr>) else Inl FatalUnlock)"

definition RLock :: "RWMutex \<Rightarrow> stuck + RWMutex" where
  "RLock m = (if writer m then Inl Deadlock else Inr (m\<lparr>readers := Suc (readers m)\<rparr>))"

definition RUnlock :: "RWMutex \<Rightarrow> stuck + RWMutex" where
  "RUnlock m = (if 0 < readers m then Inr (m\<lparr>readers := readers m - 1\<rparr>) else Inl FatalUnlock)"

definition unlocked :: "RWMutex \<Rightarrow> bool" where
  "unlocked m = (\<not> writer m \<and> readers m = 0)"

subsection \<open>The cache\<close>

text \<open>
  The struct of lines 32-38. The channel \<open>stopGc\<close> and the goroutine \<open>gcLoop\<close> that
  \<open>NewCache\<close> starts belong to the sweeper and have no part in a single call; they are
  left out.
\<close>

record 'v Cache =
  defaultExpiration :: int64
  items :: "(string, 'v Item) fmap"
  mu :: RWMutex
  gcInterval :: int64

datatype error = Errorf string | GobError string | PathError string

definition NewCache :: "int64 \<Rightarrow> int64 \<Rightarrow> 'v Cache" where
  "NewCache de gi =
     \<lparr>defaultExpiration = de, items = fmempty,
      mu = \<lparr>writer = False, readers = 0\<rparr>, gcInterval = gi\<rparr>"

text \<open>The four calls on \<open>c.mu\<close>, threaded through the cache.\<close>

definition mu_Lock :: "'v Cache \<Rightarrow> stuck + 'v Cache" where
  "mu_Lock c = (case Lock (mu c) of Inl h \<Rightarrow> Inl h | Inr m \<Rightarrow> Inr (c\<lparr>mu := m\<rparr>))"

definition mu_Unlock :: "'v Cache \<Rightarrow> stuck + 'v Cache" where
  "mu_Unlock c = (case Unlock (mu c) of Inl h \<Rightarrow> Inl h | Inr m \<Rightarrow> Inr (c\<lparr>mu := m\<rparr>))"

definition mu_RLock :: "'v Cache \<Rightarrow> stuck + 'v Cache" where
  "mu_RLock c = (case RLock (mu c) of Inl h \<Rightarrow> Inl h | Inr m \<Rightarrow> Inr (c\<lparr>mu := m\<rparr>))"

definition mu_RUnlock :: "'v Cache \<Rightarrow> stuck + 'v Cache" where
  "mu_RUnlock c = (case RUnlock (mu c) of Inl h \<Rightarrow> Inl h | Inr m \<Rightarrow> Inr (c\<lparr>mu := m\<rparr>))"

text \<open>\<open>delete\<close>, lines 56-58.\<close>

definition delete :: "'v Cache \<Rightarrow> string \<Rightarrow> 'v Cache" where
  "delete c k = c\<lparr>items := fmdrop k (items c)\<rparr>"

text \<open>
  \<open>DeleteExpired\<close>, lines 62-73: the clock is read once, before the lock is taken; the
  loop body deletes the entry it is looking at when \<open>v.Expiration > 0 && now > v.Expiration\<close>.
\<close>

fun DeleteExpired_range :: "int64 \<Rightarrow> string list \<Rightarrow> 'v Cache \<Rightarrow> 'v Cache" where
  "DeleteExpired_range now [] c = c"
| "DeleteExpired_range now (k # ks) c =
     (case fmlookup (items c) k of
        None \<Rightarrow> DeleteExpired_range now ks c
      | Some v \<Rightarrow>
          DeleteExpired_range now ks
            (if sint (Expiration v) > 0 \<and> sint now > sint (Expiration v)
             then delete c k else c))"

definition DeleteExpired :: "'v Cache \<Rightarrow> int64 \<Rightarrow> string list \<Rightarrow> stuck + 'v Cache" where
  "DeleteExpired c now ks =
     (case mu_Lock c of
        Inl h \<Rightarrow> Inl h
      | Inr c1 \<Rightarrow> mu_Unlock (DeleteExpired_range now ks c1))"

text \<open>
  \<open>Set\<close>, lines 76-91. \<open>time.Now().Add(d).UnixNano()\<close> is the clock reading plus \<open>d\<close>
  in 64-bit arithmetic.
\<close>

definition Set :: "'v Cache \<Rightarrow> string \<Rightarrow> 'v \<Rightarrow> int64 \<Rightarrow> int64 \<Rightarrow> stuck + 'v Cache" where
  "Set c k v d now =
     (let d1 = (if d = DefaultExpiration then defaultExpiration c else d);
          e = (if sint d1 > 0 then now + d1 else 0)
      in case mu_Lock c of
           Inl h \<Rightarrow> Inl h
         | Inr c1 \<Rightarrow>
             mu_Unlock (c1\<lparr>items := fmupd k \<lparr>Object = v, Expiration = e\<rparr> (items c1)\<rparr>))"

text \<open>
  \<open>get\<close>, lines 93-103, takes no lock. Go's pair \<open>(nil, false)\<close> is \<open>None\<close> and
  \<open>(item.Object, true)\<close> is \<open>Some (Object item)\<close>.
\<close>

definition get :: "'v Cache \<Rightarrow> string \<Rightarrow> int64 \<Rightarrow> 'v option" where
  "get c k now =
     (case fmlookup (items c) k of
        None \<Rightarrow> None
      | Some item \<Rightarrow> if Expired item now then None else Some (Object item))"

text \<open>
  \<open>Add\<close>, lines 106-116, and \<open>Replace\<close>, lines 134-144. Both call \<open>c.Set\<close> between their own
  \<open>c.mu.Lock()\<close> and \<open>c.mu.Unlock()\<close>. The result is the returned \<open>error\<close> (\<open>None\<close> for
  \<open>nil\<close>) and the cache.
\<close>

definition Add ::
  "'v Cache \<Rightarrow> string \<Rightarrow> 'v \<Rightarrow> int64 \<Rightarrow> int64 \<Rightarrow> stuck + (error option \<times> 'v Cache)" where
  "Add c k v d now =
     (case mu_Lock c of
        Inl h \<Rightarrow> Inl h
      | Inr c1 \<Rightarrow>
          (case get c1 k now of
             Some _ \<Rightarrow>
               (case mu_Unlock c1 of
                  Inl h \<Rightarrow> Inl h
                | Inr c2 \<Rightarrow> Inr (Some (Errorf (''item '' @ k @ '' already exists'')), c2))
           | None \<Rightarrow>
               (case Set c1 k v d now of
                  Inl h \<Rightarrow> Inl h
                | Inr c2 \<Rightarrow>
                    (case mu_Unlock c2 of
                       Inl h \<Rightarrow> Inl h
                     | Inr c3 \<Rightarrow> Inr (None, c3)))))"

definition Replace ::
  "'v Cache \<Rightarrow> string \<Rightarrow> 'v \<Rightarrow> int64 \<Rightarrow> int64 \<Rightarrow> stuck + (error option \<times> 'v Cache)" where
  "Replace c k v d now =
     (case mu_Lock c of
        Inl h \<Rightarrow> Inl h
      | Inr c1 \<Rightarrow>
          (case get c1 k now of
             None \<Rightarrow>
               (case mu_Unlock c1 of
                  Inl h \<Rightarrow> Inl h
                | Inr c2 \<Rightarrow> Inr (Some (Errorf (''Item '' @ k @ '' doesn`t exist'')), c2))
           | Some _ \<Rightarrow>
               (case Set c1 k v d now of
                  Inl h \<Rightarrow> Inl h
                | Inr c2 \<Rightarrow>
                    (case mu_Unlock c2 of
                       Inl h \<Rightarrow> Inl h
                     | Inr c3 \<Rightarrow> Inr (None, c3)))))"

text \<open>\<open>Get\<close>, lines 119-131: the lookup of \<open>get\<close>, written out again, under the read lock.\<close>

definition Get :: "'v Cache \<Rightarrow> string \<Rightarrow> int64 \<Rightarrow> stuck + ('v option \<times> 'v Cache)" where
  "Get c k now =
     (case mu_RLock c of
        Inl h \<Rightarrow> Inl h
      | Inr c1 \<Rightarrow>
          (let res = (case fmlookup (items c1) k of
                        None \<Rightarrow> None
                      | Some item \<Rightarrow> if Expired item now then None else Some (Object item))
           in case mu_RUnlock c1 of
                Inl h \<Rightarrow> Inl h
              | Inr c2 \<Rightarrow> Inr (res, c2)))"

text \<open>\<open>Delete\<close>, lines 146-151.\<close>

definition Delete :: "'v Cache \<Rightarrow> string \<Rightarrow> stuck + 'v Cache" where
  "Delete c k =
     (case mu_Lock c of
        Inl h \<Rightarrow> Inl h
      | Inr c1 \<Rightarrow> mu_Unlock (delete c1 k))"

text \<open>\<open>Count\<close>, lines 211-215.\<close>

definition Count :: "'v Cache \<Rightarrow> stuck + (nat \<times> 'v Cache)" where
  "Count c =
     (case mu_RLock c of
        Inl h \<Rightarrow> Inl h
      | Inr c1 \<Rightarrow>
          (case mu_RUnlock c1 of
             Inl h \<Rightarrow> Inl h
           | Inr c2 \<Rightarrow> Inr (fcard (fmdom (items c1)), c2)))"

text \<open>\<open>Flush\<close>, lines 218-222.\<close>

definition Flush :: "'v Cache \<Rightarrow> stuck + 'v Cache" where
  "Flush c =
     (case mu_Lock c of
        Inl h \<Rightarrow> Inl h
      | Inr c1 \<Rightarrow> mu_Unlock (c1\<lparr>items := fmempty\<rparr>))"

subsection \<open>The codec\<close>

text \<open>
  \<open>encoding/gob\<close> is not part of the repository; what the cache uses of it is a
  parameter: whether \<open>gob.Register\<close> panics on a value, what \<open>Encode\<close> writes for a
  map (or the error it returns), and what \<open>Decode\<close> reads from a stream (or the error
  it returns). The encoder and the decoder report their failures as error values.
\<close>

type_synonym bytes = "8 word list"

record 'v gob =
  Register_panics :: "'v \<Rightarrow> bool"
  Encode :: "(string, 'v Item) fmap \<Rightarrow> error + bytes"
  Decode :: "bytes \<Rightarrow> error + (string, 'v Item) fmap"

text \<open>The message of the error that \<open>Save\<close> builds after \<open>recover\<close>, in UTF-8.\<close>

definition Save_recover_message :: string where
  "Save_recover_message =
     [CHR 0xE4, CHR 0xBD, CHR 0xBF, CHR 0xE7, CHR 0x94, CHR 0xA8, CHR 0x47, CHR 0x6F,
      CHR 0x62, CHR 0xE5, CHR 0xBA, CHR 0x93, CHR 0xE6, CHR 0xB3, CHR 0xA8, CHR 0xE5,
      CHR 0x86, CHR 0x8C, CHR 0xE9, CHR 0xA1, CHR 0xB9, CHR 0xE7, CHR 0xB1, CHR 0xBB,
      CHR 0xE5, CHR 0x9E, CHR 0x8B, CHR 0xE6, CHR 0x97, CHR 0xB6, CHR 0xE5, CHR 0x87,
      CHR 0xBA, CHR 0xE9, CHR 0x94, CHR 0x99]"

text \<open>
  The loop of \<open>Save\<close>, lines 162-164: \<open>True\<close> when one of the \<open>gob.Register\<close> calls
  panics, which ends the loop.
\<close>

fun Register_range :: "('v \<Rightarrow> bool) \<Rightarrow> string list \<Rightarrow> (string, 'v Item) fmap \<Rightarrow> bool" where
  "Register_range p [] m = False"
| "Register_range p (k # ks) m =
     (case fmlookup m k of
        None \<Rightarrow> Register_range p ks m
      | Some v \<Rightarrow> if p (Object v) then True else Register_range p ks m)"

text \<open>
  \<open>Save\<close>, lines 153-167. The result is the returned error, what was written to \<open>w\<close>
  (\<open>None\<close> when the encoder did not succeed) and the cache. A panic runs the deferred
  \<open>RUnlock\<close>, then the deferred \<open>recover\<close>, which sets the error.
\<close>

definition Save ::
  "'v gob \<Rightarrow> 'v Cache \<Rightarrow> string list \<Rightarrow> stuck + (error option \<times> bytes option \<times> 'v Cache)" where
  "Save g c ks =
     (case mu_RLock c of
        Inl h \<Rightarrow> Inl h
      | Inr c1 \<Rightarrow>
          if Register_range (Register_panics g) ks (items c1)
          then (case mu_RUnlock c1 of
                  Inl h \<Rightarrow> Inl h
                | Inr c2 \<Rightarrow> Inr (Some (Errorf Save_recover_message), None, c2))
          else (case Encode g (items c1) of
                  Inl err \<Rightarrow>
                    (case mu_RUnlock c1 of
                       Inl h \<Rightarrow> Inl h
                     | Inr c2 \<Rightarrow> Inr (Some err, None, c2))
                | Inr s \<Rightarrow>
                    (case mu_RUnlock c1 of
                       Inl h \<Rightarrow> Inl h
                     | Inr c2 \<Rightarrow> Inr (None, Some s, c2))))"

text \<open>
  \<open>Load\<close>, lines 180-197. The loop ranges over the decoded map \<open>its\<close>; \<open>clk k\<close> is the
  clock as \<open>ov.Expired()\<close> reads it in the iteration for key \<open>k\<close>. When decoding fails
  the lock is not even requested.
\<close>

fun Load_range ::
  "(string, 'v Item) fmap \<Rightarrow> (string \<Rightarrow> int64) \<Rightarrow> string list \<Rightarrow> 'v Cache \<Rightarrow> 'v Cache" where
  "Load_range its clk [] c = c"
| "Load_range its clk (k # ks) c =
     (case fmlookup its k of
        None \<Rightarrow> Load_range its clk ks c
      | Some v \<Rightarrow>
          Load_range its clk ks
            (case fmlookup (items c) k of
               None \<Rightarrow> c\<lparr>items := fmupd k v (items c)\<rparr>
             | Some ov \<Rightarrow>
                 if Expired ov (clk k) then c\<lparr>items := fmupd k v (items c)\<rparr> else c))"

definition Load ::
  "'v gob \<Rightarrow> 'v Cache \<Rightarrow> bytes \<Rightarrow> string list \<Rightarrow> (string \<Rightarrow> int64)
     \<Rightarrow> stuck + (error option \<times> 'v Cache)" where
  "Load g c r ks clk =
     (case Decode g r of
        Inl err \<Rightarrow> Inr (Some err, c)
      | Inr its \<Rightarrow>
          (case mu_Lock c of
             Inl h \<Rightarrow> Inl h
           | Inr c1 \<Rightarrow>
               (case mu_Unlock (Load_range its clk ks c1) of
                  Inl h \<Rightarrow> Inl h
                | Inr c2 \<Rightarrow> Inr (None, c2))))"

text \<open>
  The order of a \<open>range\<close> loop over the map \<open>m\<close>: every key of \<open>m\<close>, once.
\<close>

definition visits :: "(string, 'a) fmap \<Rightarrow> string list \<Rightarrow> bool" where
  "visits m ks = (distinct ks \<and> set ks = fset (fmdom m))"

subsection \<open>The file wrappers\<close>

text \<open>
  The files are a finite map from path to content. Whether \<open>os.Create\<close>, \<open>os.Open\<close> and
  \<open>f.Close\<close> fail is the operating system's choice and a parameter (\<open>None\<close>: no error).
  \<open>os.Create\<close> leaves an empty file at the path; \<open>os.Open\<close> of a path that has no file fails.

  \<open>SaveToFile\<close>, lines 170-177: the body is \<open>os.Create\<close> and \<open>f.Close\<close>; neither \<open>c\<close> nor
  \<open>Save\<close> occurs in it.
\<close>

type_synonym filesystem = "(string, bytes) fmap"

definition SaveToFile ::
  "'v Cache \<Rightarrow> string \<Rightarrow> filesystem \<Rightarrow> error option \<Rightarrow> error option
     \<Rightarrow> error option \<times> filesystem" where
  "SaveToFile c file fs create_err close_err =
     (case create_err of
        Some err \<Rightarrow> (Some err, fs)
      | None \<Rightarrow> (close_err, fmupd file [] fs))"

text \<open>\<open>LoadFile\<close>, lines 199-209.\<close>

definition LoadFile ::
  "'v gob \<Rightarrow> 'v Cache \<Rightarrow> string \<Rightarrow> filesystem \<Rightarrow> error option \<Rightarrow> error option
     \<Rightarrow> string list \<Rightarrow> (string \<Rightarrow> int64) \<Rightarrow> stuck + (error option \<times> 'v Cache)" where
  "LoadFile g c file fs open_err close_err ks clk =
     (case open_err of
        Some err \<Rightarrow> Inr (Some err, c)
      | None \<Rightarrow>
          (case fmlookup fs file of
             None \<Rightarrow> Inr (Some (PathError file), c)
           | Some content \<Rightarrow>
               (case Load g c content ks clk of
                  Inl h \<Rightarrow> Inl h
                | Inr (Some err, c1) \<Rightarrow> Inr (Some err, c1)
                | Inr (None, c1) \<Rightarrow> Inr (close_err, c1))))"

section \<open>Basic facts\<close>

lemma mu_Lock_unlocked: "unlocked (mu c) \<Longrightarrow> mu_Lock c = Inr (c\<lparr>mu := (mu c)\<lparr>writer := True\<rparr>\<rparr>)"
  by (simp add: mu_Lock_def Lock_def unlocked_def)

lemma mu_Lock_held: "writer (mu c) \<Longrightarrow> mu_Lock c = Inl Deadlock"
  by (simp add: mu_Lock_def Lock_def)

lemma mu_Unlock_held: "writer (mu c) \<Longrightarrow> mu_Unlock c = Inr (c\<lparr>mu := (mu c)\<lparr>writer := False\<rparr>\<rparr>)"
  by (simp add: mu_Unlock_def Unlock_def)

lemma mu_RLock_free: "\<not> writer (mu c) \<Longrightarrow> mu_RLock c = Inr (c\<lparr>mu := (mu c)\<lparr>readers := Suc (readers (mu c))\<rparr>\<rparr>)"
  by (simp add: mu_RLock_def RLock_def)

lemma mu_RUnlock_held: "0 < readers (mu c) \<Longrightarrow> mu_RUnlock c = Inr (c\<lparr>mu := (mu c)\<lparr>readers := readers (mu c) - 1\<rparr>\<rparr>)"
  by (simp add: mu_RUnlock_def RUnlock_def)

lemma relock_id: "unlocked (mu c) \<Longrightarrow> c\<lparr>mu := (mu c)\<lparr>writer := False\<rparr>\<rparr> = c"
  by (cases c, cases "mu c") (simp add: unlocked_def)

subsection \<open>The two loops, entry by entry\<close>

lemma DeleteExpired_range_frame:
  "mu (DeleteExpired_range now ks c) = mu c \<and>
   defaultExpiration (DeleteExpired_range now ks c) = defaultExpiration c \<and>
   gcInterval (DeleteExpired_range now ks c) = gcInterval c"
  by (induction ks arbitrary: c) (auto simp: delete_def split: option.splits)

lemma DeleteExpired_range_mu [simp]: "mu (DeleteExpired_range now ks c) = mu c"
  by (simp add: DeleteExpired_range_frame)

lemma DeleteExpired_range_lookup:
  "fmlookup (items (DeleteExpired_range now ks c)) k =
     (case fmlookup (items c) k of
        None \<Rightarrow> None
      | Some v \<Rightarrow> if k \<in> set ks \<and> 0 < sint (Expiration v) \<and> sint (Expiration v) < sint now
                  then None else Some v)"
  by (induction ks arbitrary: c) (auto simp: delete_def split: option.splits)

lemma DeleteExpired_range_upd_mu:
  "DeleteExpired_range now ks (c\<lparr>mu := m\<rparr>) = (DeleteExpired_range now ks c)\<lparr>mu := m\<rparr>"
proof (rule Cache.equality)
  show "items (DeleteExpired_range now ks (c\<lparr>mu := m\<rparr>)) = items ((DeleteExpired_range now ks c)\<lparr>mu := m\<rparr>)"
    by (rule fmap_ext) (simp add: DeleteExpired_range_lookup)
qed (simp_all add: DeleteExpired_range_frame)

lemma DeleteExpired_unlocked:
  assumes "unlocked (mu c)"
  shows "DeleteExpired c now ks = Inr (DeleteExpired_range now ks c)"
proof -
  have "mu (DeleteExpired_range now ks c) = mu c" by simp
  with assms have "(DeleteExpired_range now ks c)\<lparr>mu := (mu c)\<lparr>writer := False\<rparr>\<rparr> = DeleteExpired_range now ks c"
    by (metis relock_id)
  with assms show ?thesis
    by (simp add: DeleteExpired_def mu_Lock_unlocked mu_Unlock_held DeleteExpired_range_upd_mu)
qed

lemma Load_range_frame:
  "mu (Load_range its clk ks c) = mu c \<and>
   defaultExpiration (Load_range its clk ks c) = defaultExpiration c \<and>
   gcInterval (Load_range its clk ks c) = gcInterval c"
  by (induction ks arbitrary: c) (auto split: option.splits)

lemma Load_range_mu [simp]: "mu (Load_range its clk ks c) = mu c"
  by (simp add: Load_range_frame)

lemma Load_range_lookup:
  "fmlookup (items (Load_range its clk ks c)) k =
     (case fmlookup its k of
        None \<Rightarrow> fmlookup (items c) k
      | Some v \<Rightarrow>
          if k \<in> set ks then
            (case fmlookup (items c) k of
               None \<Rightarrow> Some v
             | Some ov \<Rightarrow> if Expired ov (clk k) then Some v else Some ov)
          else fmlookup (items c) k)"
  by (induction ks arbitrary: c) (auto split: option.splits)

lemma Load_range_upd_mu:
  "Load_range its clk ks (c\<lparr>mu := m\<rparr>) = (Load_range its clk ks c)\<lparr>mu := m\<rparr>"
proof (rule Cache.equality)
  show "items (Load_range its clk ks (c\<lparr>mu := m\<rparr>)) = items ((Load_range its clk ks c)\<lparr>mu := m\<rparr>)"
    by (rule fmap_ext) (simp add: Load_range_lookup split: option.splits)
qed (simp_all add: Load_range_frame)

lemma Count_free: "\<not> writer (mu c) \<Longrightarrow> Count c = Inr (fcard (fmdom (items c)), c)"
  by (simp add: Count_def mu_RLock_free mu_RUnlock_held)

section \<open>The expiry test\<close>

text \<open>
  Claim C8, as the code has it. \<open>Expired\<close> answers true exactly when the expiration is
  not 0 and the clock is past it, both read as signed 64-bit numbers. For an
  expiration that is not negative this is the same as: the expiration is positive
  and the clock is past it. An item whose expiration is 0 is never reported expired,
  whatever the clock says.
\<close>

theorem Expired_characterised:
  "(Expired item now \<longleftrightarrow> Expiration item \<noteq> 0 \<and> sint (Expiration item) < sint now) \<and>
   (0 \<le> sint (Expiration item) \<longrightarrow>
      (Expired item now \<longleftrightarrow> 0 < sint (Expiration item) \<and> sint (Expiration item) < sint now)) \<and>
   (Expiration item = 0 \<longrightarrow> \<not> Expired item now)"
proof -
  have "sint (Expiration item) = 0 \<longleftrightarrow> Expiration item = 0"
    by (simp add: signed_eq_0_iff)
  then show ?thesis
    by (auto simp: Expired_def)
qed

theorem Expired_characterised_witness:
  "0 \<le> sint (Expiration \<lparr>Object = (), Expiration = 5\<rparr>) \<and>
   Expired \<lparr>Object = (), Expiration = 5\<rparr> 7 \<and>
   Expiration \<lparr>Object = (), Expiration = 0\<rparr> = 0 \<and>
   \<not> Expired \<lparr>Object = (), Expiration = 0\<rparr> 7"
  using Expired_characterised [of "\<lparr>Object = (), Expiration = 5\<rparr>" 7]
    Expired_characterised [of "\<lparr>Object = (), Expiration = 0\<rparr>" 7]
  by simp

text \<open>
  The test is not \<open>expiration > 0 and now > expiration\<close>: an item whose expiration is
  \<open>-1\<close> is reported expired at clock reading 1.
\<close>

theorem Expired_negative_expiration_counterexample:
  "Expired \<lparr>Object = (), Expiration = - 1\<rparr> 1 \<and>
   \<not> (sint (Expiration \<lparr>Object = (), Expiration = - 1\<rparr>) > 0 \<and>
      sint (1 :: int64) > sint (Expiration \<lparr>Object = (), Expiration = - 1\<rparr>))"
  by (simp add: Expired_def)

section \<open>The eviction pass\<close>

text \<open>
  What one pass of \<open>DeleteExpired\<close> does, started with the lock free: the entries it
  removes are those whose expiration is positive and before the clock reading of the
  pass; every other entry stays as it is.
\<close>

lemma DeleteExpired_characterised:
  assumes "unlocked (mu c)" and "visits (items c) ks"
  shows "\<exists>c'. DeleteExpired c now ks = Inr c' \<and> mu c' = mu c \<and>
     (\<forall>k. fmlookup (items c') k =
        (case fmlookup (items c) k of
           None \<Rightarrow> None
         | Some v \<Rightarrow> if 0 < sint (Expiration v) \<and> sint (Expiration v) < sint now
                     then None else Some v)) \<and>
     Count c' = Inr (fcard (fmdom (items c')), c') \<and>
     fmdom (items c') =
       ffilter (\<lambda>k. \<exists>v. fmlookup (items c) k = Some v \<and>
                  \<not> (0 < sint (Expiration v) \<and> sint (Expiration v) < sint now))
         (fmdom (items c))"
proof -
  let ?c' = "DeleteExpired_range now ks c"
  have run: "DeleteExpired c now ks = Inr ?c'"
    using assms(1) by (rule DeleteExpired_unlocked)
  have look: "fmlookup (items ?c') k =
        (case fmlookup (items c) k of
           None \<Rightarrow> None
         | Some v \<Rightarrow> if 0 < sint (Expiration v) \<and> sint (Expiration v) < sint now
                     then None else Some v)" for k
  proof (cases "fmlookup (items c) k")
    case None
    then show ?thesis by (simp add: DeleteExpired_range_lookup)
  next
    case (Some v)
    then have "k \<in> set ks" using assms(2) by (auto simp: visits_def fmlookup_dom_iff)
    with Some show ?thesis by (simp add: DeleteExpired_range_lookup)
  qed
  have cnt: "Count ?c' = Inr (fcard (fmdom (items ?c')), ?c')"
    using assms(1) by (simp add: Count_free unlocked_def)
  have dom: "fmdom (items ?c') =
       ffilter (\<lambda>k. \<exists>v. fmlookup (items c) k = Some v \<and>
                  \<not> (0 < sint (Expiration v) \<and> sint (Expiration v) < sint now))
         (fmdom (items c))"
    by (rule fset_eqI) (auto simp: fmlookup_dom_iff look split: option.splits if_splits)
  from run look cnt dom show ?thesis by simp
qed

lemma DeleteExpired_characterised_example:
  "unlocked (mu ((NewCache 0 0)\<lparr>items := fmupd ''a'' \<lparr>Object = (1::nat), Expiration = 5\<rparr>
        (fmupd ''b'' \<lparr>Object = 2, Expiration = 0\<rparr> fmempty)\<rparr>)) \<and>
   visits (items ((NewCache 0 0)\<lparr>items := fmupd ''a'' \<lparr>Object = (1::nat), Expiration = 5\<rparr>
        (fmupd ''b'' \<lparr>Object = 2, Expiration = 0\<rparr> fmempty)\<rparr>)) [''a'', ''b''] \<and>
   (\<exists>c'. DeleteExpired ((NewCache 0 0)\<lparr>items := fmupd ''a'' \<lparr>Object = (1::nat), Expiration = 5\<rparr>
        (fmupd ''b'' \<lparr>Object = 2, Expiration = 0\<rparr> fmempty)\<rparr>) 10 [''a'', ''b''] = Inr c' \<and>
      fmlookup (items c') ''a'' = None \<and>
      fmlookup (items c') ''b'' = Some \<lparr>Object = 2, Expiration = 0\<rparr>)"
proof -
  let ?c = "(NewCache 0 0)\<lparr>items := fmupd ''a'' \<lparr>Object = (1::nat), Expiration = 5\<rparr>
        (fmupd ''b'' \<lparr>Object = 2, Expiration = 0\<rparr> fmempty)\<rparr>"
  have h1: "unlocked (mu ?c)"
    by (simp add: NewCache_def unlocked_def)
  have h2: "visits (items ?c) [''a'', ''b'']"
    by (auto simp: visits_def)
  from DeleteExpired_characterised [OF h1 h2, of 10]
  obtain c' where run: "DeleteExpired ?c 10 [''a'', ''b''] = Inr c'"
    and look: "\<And>k. fmlookup (items c') k =
        (case fmlookup (items ?c) k of
           None \<Rightarrow> None
         | Some v \<Rightarrow> if 0 < sint (Expiration v) \<and> sint (Expiration v) < sint (10::int64)
                     then None else Some v)"
    by blast
  have "fmlookup (items c') ''a'' = None" and "fmlookup (items c') ''b'' = Some \<lparr>Object = 2, Expiration = 0\<rparr>"
    by (simp_all add: look)
  with h1 h2 run show ?thesis by blast
qed

lemma wrapped_sum: "(10481266036854775807 :: int64) = - 7965478036854775809"
  by (simp add: word_eq_iff_signed)


section \<open>Reading\<close>

lemma Get_free: "\<not> writer (mu c) \<Longrightarrow> Get c k now = Inr (get c k now, c)"
  by (simp add: Get_def get_def mu_RLock_free mu_RUnlock_held)

lemma get_None_iff:
  "get c k now = None \<longleftrightarrow>
     fmlookup (items c) k = None \<or> (\<exists>item. fmlookup (items c) k = Some item \<and> Expired item now)"
  by (auto simp: get_def split: option.splits)

text \<open>
  Claim C9. Called by a goroutine that does not hold the write lock, \<open>Get\<close> returns
  and reports not-found when the key is absent and when its entry is expired; the
  state it leaves is the state it found. In particular an expired entry that has not
  been swept is still in the map after the read, and \<open>Count\<close> on the state left by
  \<open>Get\<close> counts every key of the map, expired or not.
\<close>

theorem Get_reads_without_writing:
  assumes "\<not> writer (mu c)"
  shows "\<exists>res c'. Get c k now = Inr (res, c') \<and> c' = c \<and>
     (fmlookup (items c) k = None \<longrightarrow> res = None) \<and>
     (\<forall>item. fmlookup (items c) k = Some item \<and> Expired item now \<longrightarrow>
        res = None \<and> fmlookup (items c') k = Some item \<and> k |\<in>| fmdom (items c')) \<and>
     (\<forall>item. fmlookup (items c) k = Some item \<and> \<not> Expired item now \<longrightarrow>
        res = Some (Object item)) \<and>
     Count c' = Inr (fcard (fmdom (items c)), c')"
proof -
  have "Get c k now = Inr (get c k now, c)"
    using assms by (rule Get_free)
  moreover have "Count c = Inr (fcard (fmdom (items c)), c)"
    using assms by (rule Count_free)
  ultimately show ?thesis
    by (auto simp: get_def fmlookup_dom_iff)
qed

theorem Get_reads_without_writing_witness:
  "\<not> writer (mu ((NewCache 0 0)\<lparr>items := fmupd ''a'' \<lparr>Object = (1::nat), Expiration = 5\<rparr> fmempty\<rparr>)) \<and>
   fmlookup (items ((NewCache 0 0)\<lparr>items := fmupd ''a'' \<lparr>Object = (1::nat), Expiration = 5\<rparr> fmempty\<rparr>)) ''a''
     = Some \<lparr>Object = 1, Expiration = 5\<rparr> \<and>
   Expired \<lparr>Object = (1::nat), Expiration = 5\<rparr> 10 \<and>
   fmlookup (items ((NewCache 0 0)\<lparr>items := fmupd ''a'' \<lparr>Object = (1::nat), Expiration = 5\<rparr> fmempty\<rparr>)) ''b''
     = None \<and>
   Get ((NewCache 0 0)\<lparr>items := fmupd ''a'' \<lparr>Object = (1::nat), Expiration = 5\<rparr> fmempty\<rparr>) ''a'' 10
     = Inr (None, (NewCache 0 0)\<lparr>items := fmupd ''a'' \<lparr>Object = (1::nat), Expiration = 5\<rparr> fmempty\<rparr>) \<and>
   Get ((NewCache 0 0)\<lparr>items := fmupd ''a'' \<lparr>Object = (1::nat), Expiration = 5\<rparr> fmempty\<rparr>) ''b'' 10
     = Inr (None, (NewCache 0 0)\<lparr>items := fmupd ''a'' \<lparr>Object = (1::nat), Expiration = 5\<rparr> fmempty\<rparr>) \<and>
   Get ((NewCache 0 0)\<lparr>items := fmupd ''a'' \<lparr>Object = (1::nat), Expiration = 5\<rparr> fmempty\<rparr>) ''a'' 3
     = Inr (Some 1, (NewCache 0 0)\<lparr>items := fmupd ''a'' \<lparr>Object = (1::nat), Expiration = 5\<rparr> fmempty\<rparr>) \<and>
   ''a'' |\<in>| fmdom (items ((NewCache 0 0)\<lparr>items := fmupd ''a'' \<lparr>Object = (1::nat), Expiration = 5\<rparr> fmempty\<rparr>))"
proof -
  let ?c = "(NewCache 0 0)\<lparr>items := fmupd ''a'' \<lparr>Object = (1::nat), Expiration = 5\<rparr> fmempty\<rparr>"
  have free: "\<not> writer (mu ?c)"
    by (simp add: NewCache_def)
  have e10: "Expired \<lparr>Object = (1::nat), Expiration = 5\<rparr> 10" and e3: "\<not> Expired \<lparr>Object = (1::nat), Expiration = 5\<rparr> 3"
    by (simp_all add: Expired_def)
  have la: "fmlookup (items ?c) ''a'' = Some \<lparr>Object = 1, Expiration = 5\<rparr>"
    and lb: "fmlookup (items ?c) ''b'' = None"
    by simp_all
  from Get_reads_without_writing [OF free, of "''a''" 10] la e10
  have 1: "Get ?c ''a'' 10 = Inr (None, ?c)" and 4: "''a'' |\<in>| fmdom (items ?c)" by auto
  from Get_reads_without_writing [OF free, of "''b''" 10] lb
  have 2: "Get ?c ''b'' 10 = Inr (None, ?c)" by auto
  from Get_reads_without_writing [OF free, of "''a''" 3] la e3
  have 3: "Get ?c ''a'' 3 = Inr (Some 1, ?c)" by auto
  from free la lb e10 1 2 3 4 show ?thesis by blast
qed

section \<open>Writing\<close>

lemma Set_unlocked:
  assumes "unlocked (mu c)"
  shows "Set c k v d now =
     Inr (c\<lparr>items := fmupd k
        \<lparr>Object = v,
         Expiration =
           (if 0 < sint (if d = DefaultExpiration then defaultExpiration c else d)
            then now + (if d = DefaultExpiration then defaultExpiration c else d) else 0)\<rparr>
        (items c)\<rparr>)"
proof -
  have "c\<lparr>items := X, mu := (mu c)\<lparr>writer := False\<rparr>\<rparr> = c\<lparr>items := X\<rparr>" for X
    using assms by (cases c, cases "mu c") (simp add: unlocked_def)
  with assms show ?thesis
    by (simp add: Set_def Let_def mu_Lock_unlocked mu_Unlock_held)
qed

lemma Set_held: "writer (mu c) \<Longrightarrow> Set c k v d now = Inl Deadlock"
  by (simp add: Set_def Let_def mu_Lock_held)

lemma sint_add_no_overflow:
  fixes a b :: int64
  assumes "0 < sint b" and "sint a + sint b < 2 ^ 63"
  shows "sint (a + b) = sint a + sint b"
proof -
  have "- (2 ^ 63) \<le> sint a"
    using sint_ge [of a] by simp
  with assms have "- (2 ^ 63) \<le> sint a + sint b" by linarith
  with assms(2) show ?thesis
    by (simp add: sint_word_ariths signed_take_bit_int_eq_self)
qed

text \<open>
  Claim C7, as the code has it. Called with the lock free, \<open>Set\<close> returns. With the
  duration \<open>NoExpiration\<close> the stored expiration is 0. With a positive duration \<open>d\<close>
  for which the clock reading of the call plus \<open>d\<close> does not exceed the largest
  \<open>int64\<close>, the stored expiration is that sum. The entry stored for the key is the
  new item whatever was there before, every other key keeps its entry, the key set
  grows by at most that key, and a later \<open>Get\<close>, at any clock reading, leaves the
  stored item as it is.
\<close>

theorem Set_stores_expiration:
  assumes "unlocked (mu c)"
  shows "Set c k v NoExpiration now =
       Inr (c\<lparr>items := fmupd k \<lparr>Object = v, Expiration = 0\<rparr> (items c)\<rparr>) \<and>
     (0 < sint d \<and> sint now + sint d < 2 ^ 63 \<longrightarrow>
        (\<exists>e. Set c k v d now =
               Inr (c\<lparr>items := fmupd k \<lparr>Object = v, Expiration = e\<rparr> (items c)\<rparr>) \<and>
             sint e = sint now + sint d)) \<and>
     (\<exists>c' e. Set c k v d now = Inr c' \<and>
        fmlookup (items c') k = Some \<lparr>Object = v, Expiration = e\<rparr> \<and>
        (\<forall>k'. k' \<noteq> k \<longrightarrow> fmlookup (items c') k' = fmlookup (items c) k') \<and>
        fmdom (items c') = finsert k (fmdom (items c)) \<and>
        (\<forall>now'. Get c' k now' = Inr (get c' k now', c')))"
proof -
  have no: "Set c k v NoExpiration now =
       Inr (c\<lparr>items := fmupd k \<lparr>Object = v, Expiration = 0\<rparr> (items c)\<rparr>)"
    using assms by (simp add: Set_unlocked NoExpiration_def DefaultExpiration_def)
  have pos: "\<exists>e. Set c k v d now =
               Inr (c\<lparr>items := fmupd k \<lparr>Object = v, Expiration = e\<rparr> (items c)\<rparr>) \<and>
             sint e = sint now + sint d"
    if "0 < sint d" and "sint now + sint d < 2 ^ 63"
  proof -
    from that(1) have "d \<noteq> DefaultExpiration"
      by (auto simp: DefaultExpiration_def)
    with that(1) assms have "Set c k v d now =
        Inr (c\<lparr>items := fmupd k \<lparr>Object = v, Expiration = now + d\<rparr> (items c)\<rparr>)"
      by (simp add: Set_unlocked)
    moreover have "sint (now + d) = sint now + sint d"
      using that by (rule sint_add_no_overflow)
    ultimately show ?thesis by blast
  qed
  obtain e where run: "Set c k v d now =
      Inr (c\<lparr>items := fmupd k \<lparr>Object = v, Expiration = e\<rparr> (items c)\<rparr>)"
    using Set_unlocked [OF assms] by blast
  let ?c' = "c\<lparr>items := fmupd k \<lparr>Object = v, Expiration = e\<rparr> (items c)\<rparr>"
  have "\<not> writer (mu ?c')"
    using assms by (simp add: unlocked_def)
  then have rd: "Get ?c' k now' = Inr (get ?c' k now', ?c')" for now'
    by (rule Get_free)
  have "fmlookup (items ?c') k = Some \<lparr>Object = v, Expiration = e\<rparr>"
    and "\<forall>k'. k' \<noteq> k \<longrightarrow> fmlookup (items ?c') k' = fmlookup (items c) k'"
    and "fmdom (items ?c') = finsert k (fmdom (items c))"
    by simp_all
  with run rd have "\<exists>c' e. Set c k v d now = Inr c' \<and>
        fmlookup (items c') k = Some \<lparr>Object = v, Expiration = e\<rparr> \<and>
        (\<forall>k'. k' \<noteq> k \<longrightarrow> fmlookup (items c') k' = fmlookup (items c) k') \<and>
        fmdom (items c') = finsert k (fmdom (items c)) \<and>
        (\<forall>now'. Get c' k now' = Inr (get c' k now', c'))"
    by blast
  with no pos show ?thesis by blast
qed

theorem Set_stores_expiration_witness:
  "unlocked (mu (NewCache 0 0 :: string Cache)) \<and> 0 < sint (7 :: int64) \<and>
   sint (100 :: int64) + sint (7 :: int64) < 2 ^ 63 \<and>
   Set (NewCache 0 0) ''a'' ''x'' NoExpiration 100 =
     Inr ((NewCache 0 0)\<lparr>items := fmupd ''a'' \<lparr>Object = ''x'', Expiration = 0\<rparr> fmempty\<rparr>) \<and>
   (\<exists>e. Set (NewCache 0 0) ''a'' ''x'' 7 100 =
     Inr ((NewCache 0 0)\<lparr>items := fmupd ''a'' \<lparr>Object = ''x'', Expiration = e\<rparr> fmempty\<rparr>) \<and>
     sint e = 107)"
proof -
  have h: "unlocked (mu (NewCache 0 0 :: string Cache))"
    by (simp add: NewCache_def unlocked_def)
  have p: "0 < sint (7 :: int64)" and q: "sint (100 :: int64) + sint (7 :: int64) < 2 ^ 63"
    by simp_all
  have i: "items (NewCache 0 0 :: string Cache) = fmempty"
    by (simp add: NewCache_def)
  from Set_stores_expiration [OF h, where k = "''a''" and v = "''x''" and now = 100 and d = 7] p q
  obtain e where "Set (NewCache 0 0) ''a'' ''x'' NoExpiration 100 =
       Inr ((NewCache 0 0)\<lparr>items := fmupd ''a'' \<lparr>Object = ''x'', Expiration = 0\<rparr>
          (items (NewCache 0 0 :: string Cache))\<rparr>)"
    and "Set (NewCache 0 0) ''a'' ''x'' 7 100 =
       Inr ((NewCache 0 0)\<lparr>items := fmupd ''a'' \<lparr>Object = ''x'', Expiration = e\<rparr>
          (items (NewCache 0 0 :: string Cache))\<rparr>)"
    and "sint e = sint (100 :: int64) + sint (7 :: int64)"
    by blast
  with h p q i show ?thesis by auto
qed

text \<open>
  Without the bound the stored expiration is not the sum: with the largest duration
  at clock reading 1257894000000000000 the sum is 10481266036854775807 and \<open>Set\<close>
  stores \<open>-7965478036854775809\<close>.
\<close>

theorem Set_overflow_counterexample:
  "0 < sint (9223372036854775807 :: int64) \<and>
   Set (NewCache 0 0) ''a'' ''x'' 9223372036854775807 1257894000000000000 =
     Inr ((NewCache 0 0)\<lparr>items :=
        fmupd ''a'' \<lparr>Object = ''x'', Expiration = - 7965478036854775809\<rparr> fmempty\<rparr>) \<and>
   sint (- 7965478036854775809 :: int64) = - 7965478036854775809 \<and>
   sint (1257894000000000000 :: int64) + sint (9223372036854775807 :: int64) = 10481266036854775807 \<and>
   sint (- 7965478036854775809 :: int64) \<noteq>
     sint (1257894000000000000 :: int64) + sint (9223372036854775807 :: int64)"
  by (simp add: Set_def Let_def DefaultExpiration_def mu_Lock_def Lock_def mu_Unlock_def Unlock_def
      NewCache_def wrapped_sum)

section \<open>Add and Replace\<close>

text \<open>
  Claim C2. \<open>Set\<close> asks for the write lock, and a goroutine that holds it is never
  granted it again. \<open>Add\<close>, when its check finds no live entry, and \<open>Replace\<close>, when its
  check finds one, call \<open>Set\<close> in the state in which they hold the write lock: neither
  call returns.
\<close>

theorem Add_Replace_self_deadlock:
  "(writer (mu c) \<longrightarrow> Set c k v d now = Inl Deadlock) \<and>
   (unlocked (mu c) \<and> get c k now = None \<longrightarrow>
      (\<exists>c1. mu_Lock c = Inr c1 \<and> writer (mu c1) \<and> Set c1 k v d now = Inl Deadlock) \<and>
      Add c k v d now = Inl Deadlock) \<and>
   (unlocked (mu c) \<and> get c k now \<noteq> None \<longrightarrow>
      (\<exists>c1. mu_Lock c = Inr c1 \<and> writer (mu c1) \<and> Set c1 k v d now = Inl Deadlock) \<and>
      Replace c k v d now = Inl Deadlock)"
proof -
  have held: "\<exists>c1. mu_Lock c = Inr c1 \<and> writer (mu c1) \<and> Set c1 k v d now = Inl Deadlock"
    if "unlocked (mu c)"
    using that by (simp add: mu_Lock_unlocked Set_held)
  have same: "get (c\<lparr>mu := m\<rparr>) k now = get c k now" for m
    by (simp add: get_def)
  have add: "Add c k v d now = Inl Deadlock" if "unlocked (mu c)" and "get c k now = None"
    using that by (simp add: Add_def mu_Lock_unlocked same Set_held)
  have rep: "Replace c k v d now = Inl Deadlock" if "unlocked (mu c)" and "get c k now \<noteq> None"
    using that by (auto simp: Replace_def mu_Lock_unlocked same Set_held)
  from held add rep show ?thesis
    by (simp add: Set_held)
qed

theorem Add_Replace_self_deadlock_witness:
  "writer (mu ((NewCache 0 0 :: nat Cache)\<lparr>mu := \<lparr>writer = True, readers = 0\<rparr>\<rparr>)) \<and>
   Set ((NewCache 0 0)\<lparr>mu := \<lparr>writer = True, readers = 0\<rparr>\<rparr>) ''a'' (1::nat) NoExpiration 100 = Inl Deadlock \<and>
   unlocked (mu (NewCache 0 0 :: nat Cache)) \<and>
   get (NewCache 0 0 :: nat Cache) ''a'' 100 = None \<and>
   Add (NewCache 0 0) ''a'' (1::nat) NoExpiration 100 = Inl Deadlock \<and>
   unlocked (mu ((NewCache 0 0)\<lparr>items := fmupd ''a'' \<lparr>Object = (1::nat), Expiration = 0\<rparr> fmempty\<rparr>)) \<and>
   get ((NewCache 0 0)\<lparr>items := fmupd ''a'' \<lparr>Object = (1::nat), Expiration = 0\<rparr> fmempty\<rparr>) ''a'' 100 \<noteq> None \<and>
   Replace ((NewCache 0 0)\<lparr>items := fmupd ''a'' \<lparr>Object = (1::nat), Expiration = 0\<rparr> fmempty\<rparr>)
     ''a'' 2 NoExpiration 100 = Inl Deadlock"
proof -
  let ?h = "(NewCache 0 0 :: nat Cache)\<lparr>mu := \<lparr>writer = True, readers = 0\<rparr>\<rparr>"
  let ?c = "(NewCache 0 0)\<lparr>items := fmupd ''a'' \<lparr>Object = (1::nat), Expiration = 0\<rparr> fmempty\<rparr>"
  have w: "writer (mu ?h)" by simp
  have u0: "unlocked (mu (NewCache 0 0 :: nat Cache))" and u1: "unlocked (mu ?c)"
    by (simp_all add: NewCache_def unlocked_def)
  have g0: "get (NewCache 0 0 :: nat Cache) ''a'' 100 = None"
    by (simp add: get_def NewCache_def)
  have g1: "get ?c ''a'' 100 \<noteq> None"
    by (simp add: get_def Expired_def)
  from Add_Replace_self_deadlock [where c = ?h and k = "''a''" and v = 1 and d = NoExpiration and now = 100] w
  have 1: "Set ?h ''a'' 1 NoExpiration 100 = Inl Deadlock" by blast
  from Add_Replace_self_deadlock [where c = "NewCache 0 0 :: nat Cache" and k = "''a''" and v = 1
      and d = NoExpiration and now = 100] u0 g0
  have 2: "Add (NewCache 0 0) ''a'' (1::nat) NoExpiration 100 = Inl Deadlock" by blast
  from Add_Replace_self_deadlock [where c = ?c and k = "''a''" and v = 2 and d = NoExpiration and now = 100] u1 g1
  have 3: "Replace ?c ''a'' 2 NoExpiration 100 = Inl Deadlock" by blast
  from w 1 u0 g0 2 u1 g1 3 show ?thesis by blast
qed

lemma Add_live_key:
  assumes "unlocked (mu c)" and "get c k now = Some x"
  shows "Add c k v d now = Inr (Some (Errorf (''item '' @ k @ '' already exists'')), c)"
proof -
  have "get (c\<lparr>mu := m\<rparr>) k now = get c k now" for m
    by (simp add: get_def)
  with assms show ?thesis
    by (simp add: Add_def mu_Lock_unlocked mu_Unlock_held relock_id)
qed

lemma Replace_missing_key:
  assumes "unlocked (mu c)" and "get c k now = None"
  shows "Replace c k v d now = Inr (Some (Errorf (''Item '' @ k @ '' doesn`t exist'')), c)"
proof -
  have "get (c\<lparr>mu := m\<rparr>) k now = get c k now" for m
    by (simp add: get_def)
  with assms show ?thesis
    by (simp add: Replace_def mu_Lock_unlocked mu_Unlock_held relock_id)
qed

text \<open>
  Claim C5 says that \<open>Add\<close> on a key with no entry, or with an expired one, succeeds
  and leaves the value readable. Evaluated on the empty cache, and on a cache whose
  only entry for the key is expired, \<open>Add\<close> does not return: the call of \<open>Set\<close> waits
  for the lock that \<open>Add\<close> holds. (On a live key it returns its error and changes
  nothing, lemma \<open>Add_live_key\<close>.)
\<close>

theorem Add_absent_or_expired_key_never_returns:
  "Add (NewCache 0 0) ''a'' ''x'' NoExpiration 100 = Inl Deadlock \<and>
   Expired \<lparr>Object = ''w'', Expiration = 5\<rparr> 100 \<and>
   Add ((NewCache 0 0)\<lparr>items := fmupd ''a'' \<lparr>Object = ''w'', Expiration = 5\<rparr> fmempty\<rparr>)
     ''a'' ''x'' NoExpiration 100 = Inl Deadlock"
  by (simp add: Add_def get_def Expired_def Set_def mu_Lock_def Lock_def NewCache_def)

text \<open>
  Claim C6 says that \<open>Replace\<close> on a live key succeeds and behaves as \<open>Set\<close>. Evaluated on
  a cache that holds a never-expiring entry for the key, \<open>Replace\<close> does not return, for
  the same reason. (On a key with no live entry it returns its error and changes
  nothing, lemma \<open>Replace_missing_key\<close>.)
\<close>

theorem Replace_live_key_never_returns:
  "\<not> Expired \<lparr>Object = ''w'', Expiration = 0\<rparr> 100 \<and>
   Replace ((NewCache 0 0)\<lparr>items := fmupd ''a'' \<lparr>Object = ''w'', Expiration = 0\<rparr> fmempty\<rparr>)
     ''a'' ''x'' NoExpiration 100 = Inl Deadlock"
  by (simp add: Replace_def get_def Expired_def Set_def mu_Lock_def Lock_def NewCache_def)

section \<open>Load and Save\<close>

lemma Load_unlocked:
  assumes "unlocked (mu c)" and "Decode g r = Inr its"
  shows "Load g c r ks clk = Inr (None, Load_range its clk ks c)"
proof -
  have "mu (Load_range its clk ks c) = mu c" by simp
  with assms(1) have "(Load_range its clk ks c)\<lparr>mu := (mu c)\<lparr>writer := False\<rparr>\<rparr> = Load_range its clk ks c"
    by (metis relock_id)
  with assms show ?thesis
    by (simp add: Load_def mu_Lock_unlocked mu_Unlock_held Load_range_upd_mu)
qed

text \<open>
  Claim C3. When decoding fails, \<open>Load\<close> returns the decode error and the cache as it
  was. When decoding gives a map, \<open>Load\<close>, called with the lock free, returns no
  error, and the entry of every key afterwards is: the decoded entry if the key was
  decoded and the cache had no entry for it or had one that \<open>Expired\<close> reports expired
  at the moment it is tested; the entry the cache had in every other case.
\<close>

theorem Load_merges:
  "(Decode g r = Inl err \<longrightarrow> Load g c r ks clk = Inr (Some err, c)) \<and>
   (Decode g r = Inr its \<and> unlocked (mu c) \<and> visits its ks \<longrightarrow>
      (\<exists>c'. Load g c r ks clk = Inr (None, c') \<and> mu c' = mu c \<and>
         (\<forall>k. fmlookup (items c') k =
            (case fmlookup its k of
               None \<Rightarrow> fmlookup (items c) k
             | Some v \<Rightarrow>
                 (case fmlookup (items c) k of
                    None \<Rightarrow> Some v
                  | Some ov \<Rightarrow> if Expired ov (clk k) then Some v else Some ov)))))"
proof -
  have fail: "Load g c r ks clk = Inr (Some err, c)" if "Decode g r = Inl err"
    using that by (simp add: Load_def)
  have ok: "\<exists>c'. Load g c r ks clk = Inr (None, c') \<and> mu c' = mu c \<and>
         (\<forall>k. fmlookup (items c') k =
            (case fmlookup its k of
               None \<Rightarrow> fmlookup (items c) k
             | Some v \<Rightarrow>
                 (case fmlookup (items c) k of
                    None \<Rightarrow> Some v
                  | Some ov \<Rightarrow> if Expired ov (clk k) then Some v else Some ov)))"
    if dec: "Decode g r = Inr its" and free: "unlocked (mu c)" and ord: "visits its ks"
  proof -
    let ?c' = "Load_range its clk ks c"
    have run: "Load g c r ks clk = Inr (None, ?c')"
      using free dec by (rule Load_unlocked)
    have "fmlookup (items ?c') k =
            (case fmlookup its k of
               None \<Rightarrow> fmlookup (items c) k
             | Some v \<Rightarrow>
                 (case fmlookup (items c) k of
                    None \<Rightarrow> Some v
                  | Some ov \<Rightarrow> if Expired ov (clk k) then Some v else Some ov))" for k
    proof (cases "fmlookup its k")
      case None
      then show ?thesis by (simp add: Load_range_lookup)
    next
      case (Some v)
      then have "k \<in> set ks" using ord by (auto simp: visits_def fmlookup_dom_iff)
      with Some show ?thesis by (simp add: Load_range_lookup)
    qed
    with run show ?thesis by simp
  qed
  from fail ok show ?thesis by blast
qed

theorem Load_merges_witness:
  "Decode \<lparr>Register_panics = (\<lambda>_. False), Encode = (\<lambda>_. Inr [1]),
       Decode = (\<lambda>r. if r = [1] then Inr (fmupd ''a'' \<lparr>Object = ''y'', Expiration = 0\<rparr> fmempty)
                     else Inl (GobError ''unexpected EOF''))\<rparr> []
     = Inl (GobError ''unexpected EOF'') \<and>
   Load \<lparr>Register_panics = (\<lambda>_. False), Encode = (\<lambda>_. Inr [1]),
       Decode = (\<lambda>r. if r = [1] then Inr (fmupd ''a'' \<lparr>Object = ''y'', Expiration = 0\<rparr> fmempty)
                     else Inl (GobError ''unexpected EOF''))\<rparr>
     ((NewCache 0 0)\<lparr>items := fmupd ''a'' \<lparr>Object = ''w'', Expiration = 5\<rparr> fmempty\<rparr>) [] [''a''] (\<lambda>_. 10)
     = Inr (Some (GobError ''unexpected EOF''),
            (NewCache 0 0)\<lparr>items := fmupd ''a'' \<lparr>Object = ''w'', Expiration = 5\<rparr> fmempty\<rparr>) \<and>
   Decode \<lparr>Register_panics = (\<lambda>_. False), Encode = (\<lambda>_. Inr [1]),
       Decode = (\<lambda>r. if r = [1] then Inr (fmupd ''a'' \<lparr>Object = ''y'', Expiration = 0\<rparr> fmempty)
                     else Inl (GobError ''unexpected EOF''))\<rparr> [1]
     = Inr (fmupd ''a'' \<lparr>Object = ''y'', Expiration = 0\<rparr> fmempty) \<and>
   unlocked (mu ((NewCache 0 0)\<lparr>items := fmupd ''a'' \<lparr>Object = ''w'', Expiration = 5\<rparr> fmempty\<rparr>)) \<and>
   visits (fmupd ''a'' \<lparr>Object = ''y'', Expiration = 0\<rparr> fmempty) [''a''] \<and>
   (\<exists>c'. Load \<lparr>Register_panics = (\<lambda>_. False), Encode = (\<lambda>_. Inr [1]),
       Decode = (\<lambda>r. if r = [1] then Inr (fmupd ''a'' \<lparr>Object = ''y'', Expiration = 0\<rparr> fmempty)
                     else Inl (GobError ''unexpected EOF''))\<rparr>
     ((NewCache 0 0)\<lparr>items := fmupd ''a'' \<lparr>Object = ''w'', Expiration = 5\<rparr> fmempty\<rparr>) [1] [''a''] (\<lambda>_. 10)
       = Inr (None, c') \<and>
      fmlookup (items c') ''a'' = Some \<lparr>Object = ''y'', Expiration = 0\<rparr>)"
proof -
  let ?its = "fmupd ''a'' \<lparr>Object = ''y'', Expiration = 0\<rparr> fmempty"
  let ?g = "\<lparr>Register_panics = (\<lambda>_. False), Encode = (\<lambda>_. Inr [1]),
       Decode = (\<lambda>r. if r = [1] then Inr ?its else Inl (GobError ''unexpected EOF''))\<rparr>"
  let ?c = "(NewCache 0 0)\<lparr>items := fmupd ''a'' \<lparr>Object = ''w'', Expiration = 5\<rparr> fmempty\<rparr>"
  have d0: "Decode ?g [] = Inl (GobError ''unexpected EOF'')" and d1: "Decode ?g [1] = Inr ?its"
    by simp_all
  have u: "unlocked (mu ?c)"
    by (simp add: NewCache_def unlocked_def)
  have o: "visits ?its [''a'']"
    by (simp add: visits_def)
  have x: "Expired \<lparr>Object = ''w'', Expiration = 5\<rparr> 10"
    by (simp add: Expired_def)
  from Load_merges [where g = ?g and r = "[]" and err = "GobError ''unexpected EOF''" and c = ?c
      and ks = "[''a'']" and clk = "\<lambda>_. 10"] d0
  have 1: "Load ?g ?c [] [''a''] (\<lambda>_. 10) = Inr (Some (GobError ''unexpected EOF''), ?c)"
    by blast
  from Load_merges [where g = ?g and r = "[1]" and its = ?its and c = ?c
      and ks = "[''a'']" and clk = "\<lambda>_. 10"] d1 u o
  obtain c' where run: "Load ?g ?c [1] [''a''] (\<lambda>_. 10) = Inr (None, c')"
    and look: "\<And>k. fmlookup (items c') k =
            (case fmlookup ?its k of
               None \<Rightarrow> fmlookup (items ?c) k
             | Some v \<Rightarrow>
                 (case fmlookup (items ?c) k of
                    None \<Rightarrow> Some v
                  | Some ov \<Rightarrow> if Expired ov 10 then Some v else Some ov))"
    by blast
  have "fmlookup (items c') ''a'' = Some \<lparr>Object = ''y'', Expiration = 0\<rparr>"
    by (simp add: look x)
  with d0 1 d1 u o run show ?thesis by blast
qed

lemma Register_range_quiet:
  "(\<forall>k v. fmlookup m k = Some v \<longrightarrow> \<not> p (Object v)) \<Longrightarrow> \<not> Register_range p ks m"
  by (induction ks) (auto split: option.splits)

lemma Register_range_panics:
  "Register_range p ks m \<longleftrightarrow> (\<exists>k \<in> set ks. \<exists>v. fmlookup m k = Some v \<and> p (Object v))"
  by (induction ks) (auto split: option.splits)

lemma Save_free:
  assumes "\<not> writer (mu c)"
  shows "Save g c ks =
     Inr (if Register_range (Register_panics g) ks (items c)
          then (Some (Errorf Save_recover_message), None, c)
          else (case Encode g (items c) of
                  Inl err \<Rightarrow> (Some err, None, c)
                | Inr s \<Rightarrow> (None, Some s, c)))"
  using assms by (simp add: Save_def mu_RLock_free mu_RUnlock_held split: sum.splits)

lemma Load_range_into_empty:
  assumes "visits its ks" and "items c = fmempty"
  shows "items (Load_range its clk ks c) = its"
proof (rule fmap_ext)
  fix k
  show "fmlookup (items (Load_range its clk ks c)) k = fmlookup its k"
  proof (cases "fmlookup its k")
    case None
    with assms(2) show ?thesis by (simp add: Load_range_lookup)
  next
    case (Some v)
    then have "k \<in> set ks" using assms(1) by (auto simp: visits_def fmlookup_dom_iff)
    with Some assms(2) show ?thesis by (simp add: Load_range_lookup)
  qed
qed

text \<open>
  What \<open>Load\<close> does with a decoded map when the cache is fresh from \<open>NewCache\<close>: every
  decoded entry is taken over, so the map afterwards is the decoded map.
\<close>

lemma Load_into_NewCache:
  assumes "Decode g s = Inr its" and "visits its ks"
  shows "\<exists>c'. Load g (NewCache de gi) s ks clk = Inr (None, c') \<and> items c' = its"
proof -
  let ?n = "NewCache de gi :: 'a Cache"
  have fresh: "unlocked (mu ?n)" "items ?n = fmempty"
    by (simp_all add: NewCache_def unlocked_def)
  have "Load g ?n s ks clk = Inr (None, Load_range its clk ks ?n)"
    using fresh(1) assms(1) by (rule Load_unlocked)
  moreover have "items (Load_range its clk ks ?n) = its"
    using assms(2) fresh(2) by (rule Load_range_into_empty)
  ultimately show ?thesis by simp
qed

section \<open>The file wrapper\<close>

lemma SaveToFile_ignores_cache:
  "SaveToFile c file fs create_err close_err = SaveToFile c' file fs create_err close_err"
  by (simp add: SaveToFile_def)

text \<open>
  Claim C1 says that after a successful \<open>SaveToFile\<close> the file holds the serialized
  snapshot of the entry map. Evaluated on a cache with one entry, with \<open>os.Create\<close> and
  \<open>f.Close\<close> succeeding, \<open>SaveToFile\<close> returns no error and leaves the file empty, while
  \<open>Save\<close> on the same cache writes the encoder's output.
\<close>

theorem SaveToFile_leaves_file_empty:
  "SaveToFile ((NewCache 0 0)\<lparr>items := fmupd ''a'' \<lparr>Object = ''x'', Expiration = 0\<rparr> fmempty\<rparr>)
     ''cache.gob'' fmempty None None = (None, fmupd ''cache.gob'' [] fmempty) \<and>
   Save \<lparr>Register_panics = (\<lambda>_. False), Encode = (\<lambda>_. Inr [1, 2, 3]), Decode = (\<lambda>_. Inr fmempty)\<rparr>
     ((NewCache 0 0)\<lparr>items := fmupd ''a'' \<lparr>Object = ''x'', Expiration = 0\<rparr> fmempty\<rparr>) [''a'']
     = Inr (None, Some [1, 2, 3],
            (NewCache 0 0)\<lparr>items := fmupd ''a'' \<lparr>Object = ''x'', Expiration = 0\<rparr> fmempty\<rparr>)"
  by (simp add: SaveToFile_def Save_def mu_RLock_def RLock_def mu_RUnlock_def RUnlock_def NewCache_def)

end
